theory Spec2Isabelle
  imports Main "HOL-Library.Word"
begin

section \<open>Packet filtering engine of pkg/tcpip/iptables\<close>

text \<open>
  A shallow embedding of \<^verbatim>\<open>pkg/tcpip/iptables/iptables.go\<close>: the builders
  \<^verbatim>\<open>DefaultTables\<close> and \<^verbatim>\<open>EmptyFilterTable\<close> and the traversal
  \<^verbatim>\<open>Check\<close>, \<^verbatim>\<open>checkTable\<close>, \<^verbatim>\<open>checkRule\<close>.
  A Go panic is a value \<open>Inl e\<close> of the result type \<open>error + 'a\<close>; a Go \<^verbatim>\<open>int\<close> is an
  \<open>int\<close> (the only arithmetic is \<^verbatim>\<open>ruleIdx++\<close> below \<^verbatim>\<open>len(table.Rules)\<close>, which cannot
  overflow); a Go map is a partial function, read with Go's zero value for a missing key.
\<close>

subsection \<open>Errors\<close>

text \<open>
  Every way in which the three traversal functions can fail to return. The first four are
  raised by the functions of \<^verbatim>\<open>iptables.go\<close> themselves: the run-time panic of
  indexing \<^verbatim>\<open>table.Rules\<close> out of range and the three kinds of explicit \<^verbatim>\<open>panic\<close>
  call. The last three are failures of code that is called: the read of the
  network header, a matcher, a target.
\<close>

datatype error =
    RuleIndexOutOfRange
  | UnknownTableVerdict
  | UnderflowVerdict
  | UnknownRuleVerdict
  | HeaderIndexOutOfRange
  | MatcherPanic
  | TargetPanic

subsection \<open>Data model\<close>

text \<open>
  Modelled from the spec: the declarations of \<^verbatim>\<open>Hook\<close>, \<^verbatim>\<open>RuleVerdict\<close>,
  \<^verbatim>\<open>TableVerdict\<close>, \<^verbatim>\<open>Table\<close>, \<^verbatim>\<open>Rule\<close>, \<^verbatim>\<open>IPHeaderFilter\<close>, \<^verbatim>\<open>IPTables\<close>,
  \<^verbatim>\<open>Matcher\<close> and \<^verbatim>\<open>Target\<close> are not among the source files; the fields are the ones
  \<^verbatim>\<open>iptables.go\<close> reads and builds, the enumerations the ones of the spec (section 3).
  The two verdict types are Go integer types, so \<^verbatim>\<open>checkTable\<close> and \<^verbatim>\<open>Check\<close> carry
  a \<^verbatim>\<open>default\<close> branch for a value that is none of the named constants: such a value
  is \<open>RuleVerdictOther n\<close> or \<open>TableVerdictOther n\<close>.
\<close>

datatype Hook = Prerouting | Input | Forward | Output | Postrouting

datatype RuleVerdict = RuleAccept | RuleDrop | RuleContinue | RuleReturn | RuleVerdictOther int

datatype TableVerdict = TableAccept | TableDrop | TableVerdictOther int

text \<open>
  \<^verbatim>\<open>tcpip.PacketBuffer\<close>: the only field \<^verbatim>\<open>iptables.go\<close> reads is \<^verbatim>\<open>NetworkHeader\<close>,
  the raw bytes of the network header.
\<close>

record PacketBuffer =
  NetworkHeader :: "8 word list"

text \<open>
  The two capabilities. \<^verbatim>\<open>Match(hook, pkt, interfaceName)\<close> returns
  \<^verbatim>\<open>(matches, hotdrop)\<close>, \<^verbatim>\<open>Action(pkt)\<close> returns a verdict and a chain name; either
  is arbitrary Go code behind an interface and may panic instead of returning, which is
  the value \<open>None\<close>.
\<close>

datatype Matcher = MkMatcher (Match: "Hook \<Rightarrow> PacketBuffer \<Rightarrow> string \<Rightarrow> (bool \<times> bool) option")

datatype Target = MkTarget (Action: "PacketBuffer \<Rightarrow> (RuleVerdict \<times> string) option")

record IPHeaderFilter =
  Protocol :: "32 word"

record Rule =
  Filter :: IPHeaderFilter
  Matchers :: "Matcher list"
  Target :: Target

record Table =
  Rules :: "Rule list"
  BuiltinChains :: "Hook \<rightharpoonup> int"
  Underflows :: "Hook \<rightharpoonup> int"
  UserChains :: "string \<rightharpoonup> int"

record IPTables =
  Tables :: "string \<rightharpoonup> Table"
  Priorities :: "Hook \<rightharpoonup> string list"

subsection \<open>Constants\<close>

definition TablenameNat :: string where
  "TablenameNat = ''nat''"

definition TablenameMangle :: string where
  "TablenameMangle = ''mangle''"

definition TablenameFilter :: string where
  "TablenameFilter = ''filter''"

definition HookUnset :: int where
  "HookUnset = - 1"

subsection \<open>Reading Go maps and slices\<close>

text \<open>
  \<^verbatim>\<open>m[k]\<close> on a Go map gives the zero value of the value type when \<open>k\<close> is missing (also
  on a nil map): \<open>0\<close> for \<^verbatim>\<open>map[Hook]int\<close>, the nil slice for \<^verbatim>\<open>map[Hook][]string\<close>, the
  \<^verbatim>\<open>Table\<close> with no rules and nil maps for \<^verbatim>\<open>map[string]Table\<close>.
\<close>

definition hookIndex :: "(Hook \<rightharpoonup> int) \<Rightarrow> Hook \<Rightarrow> int" where
  "hookIndex m hook = (case m hook of None \<Rightarrow> 0 | Some i \<Rightarrow> i)"

definition zeroTable :: Table where
  "zeroTable = \<lparr>Rules = [], BuiltinChains = Map.empty, Underflows = Map.empty,
     UserChains = Map.empty\<rparr>"

definition tableNamed :: "(string \<rightharpoonup> Table) \<Rightarrow> string \<Rightarrow> Table" where
  "tableNamed m tablename = (case m tablename of None \<Rightarrow> zeroTable | Some table \<Rightarrow> table)"

definition prioritiesOf :: "(Hook \<rightharpoonup> string list) \<Rightarrow> Hook \<Rightarrow> string list" where
  "prioritiesOf m hook = (case m hook of None \<Rightarrow> [] | Some names \<Rightarrow> names)"

text \<open>\<^verbatim>\<open>rules[i]\<close> on a Go slice panics unless \<open>0 \<le> i < len(rules)\<close>.\<close>

definition ruleAt :: "Rule list \<Rightarrow> int \<Rightarrow> error + Rule" where
  "ruleAt rules i =
     (if 0 \<le> i \<and> i < int (length rules) then Inr (rules ! nat i) else Inl RuleIndexOutOfRange)"

text \<open>
  Modelled from the spec: \<^verbatim>\<open>header.IPv4(...).TransportProtocol()\<close> is not among the
  source files. The spec has the transport protocol read from the raw bytes of the
  network header; it is the protocol field of the IPv4 header, the byte at offset 9,
  widened to a protocol number. Reading it from a shorter header is an out-of-range read.
\<close>

definition TransportProtocol :: "8 word list \<Rightarrow> error + 32 word" where
  "TransportProtocol b =
     (if 9 < length b then Inr (ucast (b ! 9)) else Inl HeaderIndexOutOfRange)"

subsection \<open>Targets\<close>

text \<open>
  Modelled from the spec: \<^verbatim>\<open>AcceptTarget\<close> and \<^verbatim>\<open>ErrorTarget\<close> are declared outside
  the source files. Section 4.5 of the spec has an unconditional-accept target, and an
  error placeholder that must never be reached: reaching it is fatal.
\<close>

definition AcceptTarget :: Target where
  "AcceptTarget = MkTarget (\<lambda>packet. Some (RuleAccept, ''''))"

definition ErrorTarget :: Target where
  "ErrorTarget = MkTarget (\<lambda>packet. None)"

subsection \<open>Builders\<close>

text \<open>
  A composite literal \<^verbatim>\<open>Rule{Target: t}\<close> leaves the other fields at their zero
  values: protocol \<open>0\<close> and no matchers.
\<close>

definition ruleWithTarget :: "Target \<Rightarrow> Rule" where
  "ruleWithTarget t = \<lparr>Filter = \<lparr>Protocol = 0\<rparr>, Matchers = [], Target = t\<rparr>"

definition natTable :: Table where
  "natTable = \<lparr>
     Rules = [ruleWithTarget AcceptTarget, ruleWithTarget AcceptTarget,
       ruleWithTarget AcceptTarget, ruleWithTarget AcceptTarget, ruleWithTarget ErrorTarget],
     BuiltinChains = [Prerouting \<mapsto> 0, Input \<mapsto> 1, Output \<mapsto> 2, Postrouting \<mapsto> 3],
     Underflows = [Prerouting \<mapsto> 0, Input \<mapsto> 1, Output \<mapsto> 2, Postrouting \<mapsto> 3],
     UserChains = Map.empty\<rparr>"

definition mangleTable :: Table where
  "mangleTable = \<lparr>
     Rules = [ruleWithTarget AcceptTarget, ruleWithTarget AcceptTarget,
       ruleWithTarget ErrorTarget],
     BuiltinChains = [Prerouting \<mapsto> 0, Output \<mapsto> 1],
     Underflows = [Prerouting \<mapsto> 0, Output \<mapsto> 1],
     UserChains = Map.empty\<rparr>"

definition filterTable :: Table where
  "filterTable = \<lparr>
     Rules = [ruleWithTarget AcceptTarget, ruleWithTarget AcceptTarget,
       ruleWithTarget AcceptTarget, ruleWithTarget ErrorTarget],
     BuiltinChains = [Input \<mapsto> 0, Forward \<mapsto> 1, Output \<mapsto> 2],
     Underflows = [Input \<mapsto> 0, Forward \<mapsto> 1, Output \<mapsto> 2],
     UserChains = Map.empty\<rparr>"

definition DefaultTables :: IPTables where
  "DefaultTables = \<lparr>
     Tables = [TablenameNat \<mapsto> natTable, TablenameMangle \<mapsto> mangleTable,
       TablenameFilter \<mapsto> filterTable],
     Priorities = [
       Input \<mapsto> [TablenameNat, TablenameFilter],
       Prerouting \<mapsto> [TablenameMangle, TablenameNat],
       Output \<mapsto> [TablenameMangle, TablenameNat, TablenameFilter]]\<rparr>"

definition EmptyFilterTable :: Table where
  "EmptyFilterTable = \<lparr>
     Rules = [],
     BuiltinChains = [Input \<mapsto> HookUnset, Forward \<mapsto> HookUnset, Output \<mapsto> HookUnset],
     Underflows = [Input \<mapsto> HookUnset, Forward \<mapsto> HookUnset, Output \<mapsto> HookUnset],
     UserChains = Map.empty\<rparr>"

subsection \<open>Rule evaluation\<close>

text \<open>
  The loop over \<^verbatim>\<open>rule.Matchers\<close> of \<^verbatim>\<open>checkRule\<close> and the call of the target behind
  it. The interface name handed to every matcher is the empty string.
\<close>

fun checkRuleMatchers :: "Hook \<Rightarrow> PacketBuffer \<Rightarrow> Matcher list \<Rightarrow> Target \<Rightarrow> error + RuleVerdict"
  where
  "checkRuleMatchers hook pkt [] target =
     (case Action target pkt of
        None \<Rightarrow> Inl TargetPanic
      | Some (verdict, chain) \<Rightarrow> Inr verdict)"
| "checkRuleMatchers hook pkt (matcher # rest) target =
     (case Match matcher hook pkt '''' of
        None \<Rightarrow> Inl MatcherPanic
      | Some (matches, hotdrop) \<Rightarrow>
          if hotdrop then Inr RuleDrop
          else if \<not> matches then Inr RuleContinue
          else checkRuleMatchers hook pkt rest target)"

text \<open>
  \<^verbatim>\<open>checkRule\<close>. The header test is
  \<^verbatim>\<open>rule.Filter.Protocol != 0 && rule.Filter.Protocol != ...TransportProtocol()\<close>:
  \<^verbatim>\<open>&&\<close> reads the header only when the protocol of the filter is not \<open>0\<close>.
\<close>

definition checkRule :: "IPTables \<Rightarrow> Hook \<Rightarrow> PacketBuffer \<Rightarrow> Table \<Rightarrow> int \<Rightarrow> error + RuleVerdict"
  where
  "checkRule it hook pkt table ruleIdx =
     (case ruleAt (Rules table) ruleIdx of
        Inl e \<Rightarrow> Inl e
      | Inr rule \<Rightarrow>
          if Protocol (Filter rule) \<noteq> 0 then
            (case TransportProtocol (NetworkHeader pkt) of
               Inl e \<Rightarrow> Inl e
             | Inr proto \<Rightarrow>
                 if Protocol (Filter rule) \<noteq> proto then Inr RuleContinue
                 else checkRuleMatchers hook pkt (Matchers rule) (Target rule))
          else checkRuleMatchers hook pkt (Matchers rule) (Target rule))"

subsection \<open>Table traversal\<close>

text \<open>
  The \<^verbatim>\<open>RuleReturn\<close> branch of \<^verbatim>\<open>checkTable\<close>: the rule at
  \<^verbatim>\<open>table.Underflows[hook]\<close> is fetched and its target run.
\<close>

definition checkUnderflow :: "Hook \<Rightarrow> PacketBuffer \<Rightarrow> Table \<Rightarrow> error + TableVerdict" where
  "checkUnderflow hook pkt table =
     (case ruleAt (Rules table) (hookIndex (Underflows table) hook) of
        Inl e \<Rightarrow> Inl e
      | Inr underflow \<Rightarrow>
          (case Action (Target underflow) pkt of
             None \<Rightarrow> Inl TargetPanic
           | Some (v, chain) \<Rightarrow>
               (case v of
                  RuleAccept \<Rightarrow> Inr TableAccept
                | RuleDrop \<Rightarrow> Inr TableDrop
                | RuleContinue \<Rightarrow> Inl UnderflowVerdict
                | RuleReturn \<Rightarrow> Inl UnderflowVerdict
                | RuleVerdictOther n \<Rightarrow> Inl UnknownRuleVerdict)))"

text \<open>
  The \<^verbatim>\<open>for\<close> loop of \<^verbatim>\<open>checkTable\<close>, from \<open>ruleIdx\<close> on. It runs while
  \<^verbatim>\<open>ruleIdx < len(table.Rules)\<close>, so a negative \<open>ruleIdx\<close> enters the body.
\<close>

function checkTableFrom ::
  "IPTables \<Rightarrow> Hook \<Rightarrow> PacketBuffer \<Rightarrow> Table \<Rightarrow> int \<Rightarrow> error + TableVerdict" where
  "checkTableFrom it hook pkt table ruleIdx =
     (if ruleIdx < int (length (Rules table)) then
        (case checkRule it hook pkt table ruleIdx of
           Inl e \<Rightarrow> Inl e
         | Inr verdict \<Rightarrow>
             (case verdict of
                RuleAccept \<Rightarrow> Inr TableAccept
              | RuleDrop \<Rightarrow> Inr TableDrop
              | RuleContinue \<Rightarrow> checkTableFrom it hook pkt table (ruleIdx + 1)
              | RuleReturn \<Rightarrow> checkUnderflow hook pkt table
              | RuleVerdictOther n \<Rightarrow> Inl UnknownRuleVerdict))
      else Inr TableDrop)"
  by pat_completeness auto
termination
  by (relation "measure (\<lambda>(it, hook, pkt, table, ruleIdx). nat (int (length (Rules table)) - ruleIdx))")
    auto

definition checkTable :: "IPTables \<Rightarrow> Hook \<Rightarrow> PacketBuffer \<Rightarrow> string \<Rightarrow> error + TableVerdict"
  where
  "checkTable it hook pkt tablename =
     (let table = tableNamed (Tables it) tablename
      in checkTableFrom it hook pkt table (hookIndex (BuiltinChains table) hook))"

subsection \<open>The entry point\<close>

text \<open>The \<^verbatim>\<open>for ... range it.Priorities[hook]\<close> loop of \<^verbatim>\<open>Check\<close>, on the names left.\<close>

fun CheckTables :: "IPTables \<Rightarrow> Hook \<Rightarrow> PacketBuffer \<Rightarrow> string list \<Rightarrow> error + bool" where
  "CheckTables it hook pkt [] = Inr True"
| "CheckTables it hook pkt (tablename # rest) =
     (case checkTable it hook pkt tablename of
        Inl e \<Rightarrow> Inl e
      | Inr verdict \<Rightarrow>
          (case verdict of
             TableAccept \<Rightarrow> CheckTables it hook pkt rest
           | TableDrop \<Rightarrow> Inr False
           | TableVerdictOther n \<Rightarrow> Inl UnknownTableVerdict))"

definition Check :: "IPTables \<Rightarrow> Hook \<Rightarrow> PacketBuffer \<Rightarrow> error + bool" where
  "Check it hook pkt = CheckTables it hook pkt (prioritiesOf (Priorities it) hook)"

subsection \<open>The configuration invariant\<close>

text \<open>
  The panics that \<^verbatim>\<open>Check\<close>, \<^verbatim>\<open>checkTable\<close> and \<^verbatim>\<open>checkRule\<close> raise themselves:
  the out-of-range index into \<^verbatim>\<open>table.Rules\<close> and the explicit \<^verbatim>\<open>panic\<close> calls.
\<close>

definition isOwnPanic :: "error \<Rightarrow> bool" where
  "isOwnPanic e =
     (e = RuleIndexOutOfRange \<or> e = UnknownTableVerdict \<or> e = UnderflowVerdict
      \<or> e = UnknownRuleVerdict)"

definition ownPanic :: "error + 'a \<Rightarrow> bool" where
  "ownPanic r = (case r of Inl e \<Rightarrow> isOwnPanic e | Inr x \<Rightarrow> False)"

text \<open>
  The invariant of section 3 of the spec, read with Go's map lookup. A target returns
  one of the four rule verdicts on every packet; an underflow rule is unconditional
  (protocol \<open>0\<close>, no matchers) and its target yields only Accept or Drop; a table is
  wired into a hook when \<^verbatim>\<open>BuiltinChains[hook]\<close> is not \<^verbatim>\<open>HookUnset\<close> and indexes
  \<^verbatim>\<open>Rules\<close>, and \<^verbatim>\<open>Underflows[hook]\<close> indexes such an underflow rule; the engine state
  is well configured when every table named in \<^verbatim>\<open>Priorities[hook]\<close> is wired into
  \<open>hook\<close>.
\<close>

definition targetReturnsVerdict :: "Target \<Rightarrow> bool" where
  "targetReturnsVerdict t =
     (\<forall>pkt. \<exists>v chain. Action t pkt = Some (v, chain)
        \<and> (v = RuleAccept \<or> v = RuleDrop \<or> v = RuleContinue \<or> v = RuleReturn))"

definition unconditionalAcceptOrDrop :: "Rule \<Rightarrow> bool" where
  "unconditionalAcceptOrDrop rule =
     (Protocol (Filter rule) = 0 \<and> Matchers rule = []
      \<and> (\<forall>pkt. \<exists>v chain. Action (Target rule) pkt = Some (v, chain)
            \<and> (v = RuleAccept \<or> v = RuleDrop)))"

definition tableInvariant :: "Table \<Rightarrow> Hook \<Rightarrow> bool" where
  "tableInvariant table hook =
     (hookIndex (BuiltinChains table) hook \<noteq> HookUnset
      \<and> 0 \<le> hookIndex (BuiltinChains table) hook
      \<and> hookIndex (BuiltinChains table) hook < int (length (Rules table))
      \<and> (case ruleAt (Rules table) (hookIndex (Underflows table) hook) of
            Inl e \<Rightarrow> False
          | Inr underflow \<Rightarrow> unconditionalAcceptOrDrop underflow)
      \<and> (\<forall>rule\<in>set (Rules table). targetReturnsVerdict (Target rule)))"

definition configInvariant :: "IPTables \<Rightarrow> bool" where
  "configInvariant it =
     (\<forall>hook. \<forall>tablename\<in>set (prioritiesOf (Priorities it) hook).
        tableInvariant (tableNamed (Tables it) tablename) hook)"

subsection \<open>Example configurations\<close>

text \<open>
  Packets, matchers, targets and tables on which the theorems below are run. The two
  packets carry a 20-byte IPv4 header with protocol 6 (TCP) and 17 (UDP); the third has
  no network header at all.
\<close>

definition tcpPacket :: PacketBuffer where
  "tcpPacket = \<lparr>NetworkHeader =
     [0x45, 0, 0, 0x14, 0, 0, 0, 0, 0x40, 6, 0, 0, 127, 0, 0, 1, 127, 0, 0, 1]\<rparr>"

definition udpPacket :: PacketBuffer where
  "udpPacket = \<lparr>NetworkHeader =
     [0x45, 0, 0, 0x14, 0, 0, 0, 0, 0x40, 17, 0, 0, 127, 0, 0, 1, 127, 0, 0, 1]\<rparr>"

definition bareHeaderPacket :: PacketBuffer where
  "bareHeaderPacket = \<lparr>NetworkHeader = []\<rparr>"

definition alwaysMatcher :: Matcher where
  "alwaysMatcher = MkMatcher (\<lambda>hook pkt interfaceName. Some (True, False))"

definition neverMatcher :: Matcher where
  "neverMatcher = MkMatcher (\<lambda>hook pkt interfaceName. Some (False, False))"

definition hotdropMatcher :: Matcher where
  "hotdropMatcher = MkMatcher (\<lambda>hook pkt interfaceName. Some (False, True))"

definition panicMatcher :: Matcher where
  "panicMatcher = MkMatcher (\<lambda>hook pkt interfaceName. None)"

definition dropTarget :: Target where
  "dropTarget = MkTarget (\<lambda>packet. Some (RuleDrop, ''''))"

definition panicTarget :: Target where
  "panicTarget = MkTarget (\<lambda>packet. None)"

definition returnTarget :: Target where
  "returnTarget = MkTarget (\<lambda>packet. Some (RuleReturn, ''''))"

definition ruleOf :: "32 word \<Rightarrow> Matcher list \<Rightarrow> Target \<Rightarrow> Rule" where
  "ruleOf proto ms t = \<lparr>Filter = \<lparr>Protocol = proto\<rparr>, Matchers = ms, Target = t\<rparr>"

definition tableOf :: "Rule list \<Rightarrow> int \<Rightarrow> int \<Rightarrow> Table" where
  "tableOf rs entry underflow = \<lparr>Rules = rs, BuiltinChains = [Input \<mapsto> entry],
     Underflows = [Input \<mapsto> underflow], UserChains = Map.empty\<rparr>"

text \<open>No rule decides on a TCP packet: no match, then a UDP-only rule.\<close>

definition undecidedTable :: Table where
  "undecidedTable = tableOf
     [ruleOf 0 [neverMatcher] AcceptTarget, ruleOf 17 [] panicTarget] 0 0"

text \<open>The only rule runs a target that panics.\<close>

definition brokenTable :: Table where
  "brokenTable = tableOf [ruleOf 0 [] panicTarget] 0 0"

definition orderedTables :: IPTables where
  "orderedTables = \<lparr>
     Tables = [''nat'' \<mapsto> natTable, ''filter'' \<mapsto> undecidedTable, ''broken'' \<mapsto> brokenTable],
     Priorities = [Input \<mapsto> [''nat'', ''filter'', ''broken''], Output \<mapsto> [''nat'']]\<rparr>"

text \<open>One rule per way out of the matcher loop.\<close>

definition matcherTable :: Table where
  "matcherTable = tableOf
     [ruleOf 6 [alwaysMatcher, hotdropMatcher, panicMatcher] panicTarget,
      ruleOf 0 [alwaysMatcher, neverMatcher, panicMatcher] panicTarget,
      ruleOf 6 [alwaysMatcher, alwaysMatcher] returnTarget] 0 0"

text \<open>
  A chain that returns to its underflow rule; the underflow rule carries a UDP-only
  filter and a matcher that panics.
\<close>

definition returningTable :: Table where
  "returningTable = tableOf
     [ruleOf 0 [neverMatcher] dropTarget, ruleOf 0 [] returnTarget,
      ruleOf 17 [panicMatcher] AcceptTarget] 0 2"

definition returningTables :: IPTables where
  "returningTables = \<lparr>Tables = [''filter'' \<mapsto> returningTable],
     Priorities = [Input \<mapsto> [''filter'']]\<rparr>"

text \<open>A UDP-only rule whose matcher and target would both panic, then an accepting rule.\<close>

definition udpOnlyTable :: Table where
  "udpOnlyTable = tableOf
     [ruleOf 17 [panicMatcher] panicTarget, ruleOf 0 [] AcceptTarget] 0 1"

text \<open>A well-configured state: a TCP rule that returns, and an unconditional drop below it.\<close>

definition wiredTable :: Table where
  "wiredTable = tableOf [ruleOf 6 [alwaysMatcher] returnTarget, ruleOf 0 [] dropTarget] 0 1"

definition wiredTables :: IPTables where
  "wiredTables = \<lparr>Tables = [''filter'' \<mapsto> wiredTable], Priorities = [Input \<mapsto> [''filter'']]\<rparr>"

section \<open>Properties\<close>

subsection \<open>The builders\<close>

text \<open>
  C9: the engine state built by \<^verbatim>\<open>DefaultTables\<close> has exactly these priority lists, in
  this order: Input has nat then filter (no mangle), Prerouting has mangle then nat,
  Output has mangle, nat, filter; Forward and Postrouting have no priority list.
\<close>

theorem DefaultTables_Priorities:
  "Priorities DefaultTables Input = Some [''nat'', ''filter'']
   \<and> Priorities DefaultTables Prerouting = Some [''mangle'', ''nat'']
   \<and> Priorities DefaultTables Output = Some [''mangle'', ''nat'', ''filter'']
   \<and> Priorities DefaultTables Forward = None
   \<and> Priorities DefaultTables Postrouting = None"
  by (simp add: DefaultTables_def TablenameNat_def TablenameMangle_def TablenameFilter_def)

text \<open>
  C8, as the claim states it, fails: \<^verbatim>\<open>EmptyFilterTable\<close> gives Prerouting no entry, so
  \<^verbatim>\<open>BuiltinChains[Prerouting]\<close> is not \<^verbatim>\<open>HookUnset\<close> (Go reads \<open>0\<close> for the missing key).
\<close>

theorem EmptyFilterTable_Prerouting_not_Unset:
  "BuiltinChains EmptyFilterTable Prerouting = None
   \<and> hookIndex (BuiltinChains EmptyFilterTable) Prerouting = 0
   \<and> hookIndex (BuiltinChains EmptyFilterTable) Prerouting \<noteq> HookUnset"
  by (simp add: EmptyFilterTable_def hookIndex_def HookUnset_def)

text \<open>
  C8, amended: the table returned by \<^verbatim>\<open>EmptyFilterTable\<close> has an empty rule list and, for
  each of the three hooks of the filter table (Input, Forward, Output), both
  \<^verbatim>\<open>BuiltinChains[hook]\<close> and \<^verbatim>\<open>Underflows[hook]\<close> equal \<^verbatim>\<open>HookUnset\<close>, which is \<open>-1\<close>;
  Prerouting and Postrouting have no entry in either map.
\<close>

theorem EmptyFilterTable_filter_hooks_Unset:
  "Rules EmptyFilterTable = []
   \<and> HookUnset = - 1
   \<and> BuiltinChains EmptyFilterTable Input = Some HookUnset
   \<and> BuiltinChains EmptyFilterTable Forward = Some HookUnset
   \<and> BuiltinChains EmptyFilterTable Output = Some HookUnset
   \<and> Underflows EmptyFilterTable Input = Some HookUnset
   \<and> Underflows EmptyFilterTable Forward = Some HookUnset
   \<and> Underflows EmptyFilterTable Output = Some HookUnset
   \<and> BuiltinChains EmptyFilterTable Prerouting = None
   \<and> BuiltinChains EmptyFilterTable Postrouting = None
   \<and> Underflows EmptyFilterTable Prerouting = None
   \<and> Underflows EmptyFilterTable Postrouting = None"
  by (simp add: EmptyFilterTable_def HookUnset_def)

subsection \<open>Rule evaluation\<close>

lemma checkRuleMatchers_hotdrop:
  "\<forall>x\<in>set pre. Match x hook pkt '''' = Some (True, False) \<Longrightarrow>
   Match m hook pkt '''' = Some (b, True) \<Longrightarrow>
   checkRuleMatchers hook pkt (pre @ m # post) target = Inr RuleDrop"
  by (induction pre) simp_all

lemma checkRuleMatchers_nomatch:
  "\<forall>x\<in>set pre. Match x hook pkt '''' = Some (True, False) \<Longrightarrow>
   Match m hook pkt '''' = Some (False, False) \<Longrightarrow>
   checkRuleMatchers hook pkt (pre @ m # post) target = Inr RuleContinue"
  by (induction pre) simp_all

lemma checkRuleMatchers_all_match:
  "\<forall>x\<in>set ms. Match x hook pkt '''' = Some (True, False) \<Longrightarrow>
   checkRuleMatchers hook pkt ms target =
     (case Action target pkt of None \<Rightarrow> Inl TargetPanic | Some (verdict, chain) \<Rightarrow> Inr verdict)"
  by (induction ms) simp_all

lemma checkRule_filter_passes:
  "ruleAt (Rules table) ruleIdx = Inr rule \<Longrightarrow>
   Protocol (Filter rule) = 0
     \<or> TransportProtocol (NetworkHeader pkt) = Inr (Protocol (Filter rule)) \<Longrightarrow>
   checkRule it hook pkt table ruleIdx =
     checkRuleMatchers hook pkt (Matchers rule) (Target rule)"
  by (auto simp: checkRule_def)

text \<open>
  C3: for a rule whose header filter passes (its protocol is \<open>0\<close>, or is the packet's),
  \<^verbatim>\<open>checkRule\<close> runs the matchers in declared order. If the matchers before \<open>m\<close> all
  match and \<open>m\<close> reports hot-drop, the result is Drop, whatever \<open>m\<close> says of the match,
  whatever the later matchers \<open>post\<close> and the target are (they may panic: they are not
  called). If \<open>m\<close> reports no match and no hot-drop, the result is Continue, again
  whatever follows. If every matcher matches, the target's \<^verbatim>\<open>Action\<close> is run and its
  verdict is the result, unchanged.
\<close>

theorem checkRule_matchers_in_order:
  assumes "ruleAt (Rules table) ruleIdx = Inr rule"
    and "Protocol (Filter rule) = 0
      \<or> TransportProtocol (NetworkHeader pkt) = Inr (Protocol (Filter rule))"
  shows "(Matchers rule = pre @ m # post
        \<and> (\<forall>x\<in>set pre. Match x hook pkt '''' = Some (True, False))
        \<and> Match m hook pkt '''' = Some (matches, True)
        \<longrightarrow> checkRule it hook pkt table ruleIdx = Inr RuleDrop)
     \<and> (Matchers rule = pre @ m # post
        \<and> (\<forall>x\<in>set pre. Match x hook pkt '''' = Some (True, False))
        \<and> Match m hook pkt '''' = Some (False, False)
        \<longrightarrow> checkRule it hook pkt table ruleIdx = Inr RuleContinue)
     \<and> ((\<forall>x\<in>set (Matchers rule). Match x hook pkt '''' = Some (True, False))
        \<longrightarrow> checkRule it hook pkt table ruleIdx =
          (case Action (Target rule) pkt of
             None \<Rightarrow> Inl TargetPanic
           | Some (verdict, chain) \<Rightarrow> Inr verdict))"
  using checkRule_filter_passes [OF assms, of it hook]
  by (simp add: checkRuleMatchers_hotdrop checkRuleMatchers_nomatch checkRuleMatchers_all_match)

text \<open>
  C5: for a rule with a protocol constraint (not \<open>0\<close>) and a packet whose transport
  protocol, read from its network header, differs from it, \<^verbatim>\<open>checkRule\<close> is Continue
  whatever the matchers and the target of the rule are (they may panic: they are not
  run), and the traversal advances to the next rule: the traversal from \<open>ruleIdx\<close> is
  the traversal from \<open>ruleIdx + 1\<close>, so it is the rule at \<open>ruleIdx + 1\<close> that is evaluated
  and decides. Past the end of the rule list the table drops; otherwise Accept or Drop
  of that rule is the table verdict, its Return runs the underflow target, its Continue
  moves on to \<open>ruleIdx + 2\<close>, and its panic is the panic of the traversal.
\<close>

theorem checkRule_protocol_mismatch_continue:
  assumes "ruleAt (Rules table) ruleIdx = Inr rule"
    and "Protocol (Filter rule) \<noteq> 0"
    and "TransportProtocol (NetworkHeader pkt) = Inr proto"
    and "proto \<noteq> Protocol (Filter rule)"
  shows "checkRule it hook pkt table ruleIdx = Inr RuleContinue
     \<and> checkTableFrom it hook pkt table ruleIdx = checkTableFrom it hook pkt table (ruleIdx + 1)
     \<and> checkTableFrom it hook pkt table ruleIdx =
         (if ruleIdx + 1 < int (length (Rules table)) then
            (case checkRule it hook pkt table (ruleIdx + 1) of
               Inl e \<Rightarrow> Inl e
             | Inr verdict \<Rightarrow>
                 (case verdict of
                    RuleAccept \<Rightarrow> Inr TableAccept
                  | RuleDrop \<Rightarrow> Inr TableDrop
                  | RuleContinue \<Rightarrow> checkTableFrom it hook pkt table (ruleIdx + 2)
                  | RuleReturn \<Rightarrow> checkUnderflow hook pkt table
                  | RuleVerdictOther n \<Rightarrow> Inl UnknownRuleVerdict))
          else Inr TableDrop)"
proof -
  have here: "checkRule it hook pkt table ruleIdx = Inr RuleContinue"
    using assms by (auto simp: checkRule_def)
  have "ruleIdx < int (length (Rules table))"
    using assms(1) by (simp add: ruleAt_def split: if_splits)
  with here have advance:
    "checkTableFrom it hook pkt table ruleIdx = checkTableFrom it hook pkt table (ruleIdx + 1)"
    by (subst checkTableFrom.simps) simp
  have two: "ruleIdx + 1 + 1 = ruleIdx + 2"
    by simp
  have next_rule: "checkTableFrom it hook pkt table (ruleIdx + 1) =
      (if ruleIdx + 1 < int (length (Rules table)) then
         (case checkRule it hook pkt table (ruleIdx + 1) of
            Inl e \<Rightarrow> Inl e
          | Inr verdict \<Rightarrow>
              (case verdict of
                 RuleAccept \<Rightarrow> Inr TableAccept
               | RuleDrop \<Rightarrow> Inr TableDrop
               | RuleContinue \<Rightarrow> checkTableFrom it hook pkt table (ruleIdx + 2)
               | RuleReturn \<Rightarrow> checkUnderflow hook pkt table
               | RuleVerdictOther n \<Rightarrow> Inl UnknownRuleVerdict))
       else Inr TableDrop)"
    using checkTableFrom.simps [of it hook pkt table "ruleIdx + 1"] unfolding two .
  show ?thesis
  proof (intro conjI)
    show "checkRule it hook pkt table ruleIdx = Inr RuleContinue"
      by (rule here)
    show "checkTableFrom it hook pkt table ruleIdx = checkTableFrom it hook pkt table (ruleIdx + 1)"
      by (rule advance)
    show "checkTableFrom it hook pkt table ruleIdx =
        (if ruleIdx + 1 < int (length (Rules table)) then
           (case checkRule it hook pkt table (ruleIdx + 1) of
              Inl e \<Rightarrow> Inl e
            | Inr verdict \<Rightarrow>
                (case verdict of
                   RuleAccept \<Rightarrow> Inr TableAccept
                 | RuleDrop \<Rightarrow> Inr TableDrop
                 | RuleContinue \<Rightarrow> checkTableFrom it hook pkt table (ruleIdx + 2)
                 | RuleReturn \<Rightarrow> checkUnderflow hook pkt table
                 | RuleVerdictOther n \<Rightarrow> Inl UnknownRuleVerdict))
         else Inr TableDrop)"
      using advance next_rule by (rule trans)
  qed
qed

lemma checkRuleMatchers_continue:
  "checkRuleMatchers hook pkt ms target = Inr RuleContinue \<Longrightarrow>
   (\<exists>pre m post. ms = pre @ m # post \<and> Match m hook pkt '''' = Some (False, False))
   \<or> (\<exists>chain. Action target pkt = Some (RuleContinue, chain))"
proof (induction ms)
  case Nil
  then show ?case by (auto split: option.splits)
next
  case (Cons a ms)
  show ?case
  proof (cases "Match a hook pkt ''''")
    case None
    with Cons.prems show ?thesis by simp
  next
    case (Some r)
    obtain matches hotdrop where r: "r = (matches, hotdrop)" by (cases r)
    show ?thesis
    proof (cases "\<not> hotdrop \<and> matches")
      case True
      with Cons.prems Some r have "checkRuleMatchers hook pkt ms target = Inr RuleContinue"
        by simp
      from Cons.IH [OF this] show ?thesis
      proof
        assume "\<exists>pre m post. ms = pre @ m # post \<and> Match m hook pkt '''' = Some (False, False)"
        then obtain pre m post where "ms = pre @ m # post"
          and "Match m hook pkt '''' = Some (False, False)" by blast
        then have "a # ms = (a # pre) @ m # post \<and> Match m hook pkt '''' = Some (False, False)"
          by simp
        then show ?thesis by blast
      next
        assume "\<exists>chain. Action target pkt = Some (RuleContinue, chain)"
        then show ?thesis by blast
      qed
    next
      case False
      with Cons.prems Some r have "Match a hook pkt '''' = Some (False, False)"
        by (auto split: if_splits)
      then have "a # ms = [] @ a # ms \<and> Match a hook pkt '''' = Some (False, False)" by simp
      then show ?thesis by blast
    qed
  qed
qed

text \<open>
  C10: a rule whose filter protocol is \<open>0\<close> has no protocol constraint. For every hook
  and packet \<^verbatim>\<open>checkRule\<close> is the result of the matcher loop and the target: the
  matchers are consulted whatever the network header holds, and the header is not even
  read. A Continue from such a rule comes from a matcher that reports no match or from
  the target, never from the header filter.
\<close>

theorem checkRule_protocol_zero_unconstrained:
  assumes "ruleAt (Rules table) ruleIdx = Inr rule"
    and "Protocol (Filter rule) = 0"
  shows "checkRule it hook pkt table ruleIdx =
       checkRuleMatchers hook pkt (Matchers rule) (Target rule)
     \<and> (checkRule it hook pkt table ruleIdx = Inr RuleContinue \<longrightarrow>
         (\<exists>pre m post. Matchers rule = pre @ m # post
            \<and> Match m hook pkt '''' = Some (False, False))
         \<or> (\<exists>chain. Action (Target rule) pkt = Some (RuleContinue, chain)))"
proof -
  have eq: "checkRule it hook pkt table ruleIdx =
      checkRuleMatchers hook pkt (Matchers rule) (Target rule)"
    using assms by (simp add: checkRule_def)
  show ?thesis
    unfolding eq using checkRuleMatchers_continue [of hook pkt "Matchers rule" "Target rule"]
    by blast
qed

subsection \<open>Table traversal\<close>

lemma checkTableFrom_all_continue:
  "(\<And>i. k \<le> i \<Longrightarrow> i < int (length (Rules table)) \<Longrightarrow>
      checkRule it hook pkt table i = Inr RuleContinue) \<Longrightarrow>
   checkTableFrom it hook pkt table k = Inr TableDrop"
proof (induction it hook pkt table k rule: checkTableFrom.induct)
  case (1 it hook pkt table ruleIdx)
  show ?case
  proof (cases "ruleIdx < int (length (Rules table))")
    case False
    then show ?thesis by (simp add: checkTableFrom.simps)
  next
    case True
    have here: "checkRule it hook pkt table ruleIdx = Inr RuleContinue"
      using "1.prems" True by simp
    have "checkTableFrom it hook pkt table (ruleIdx + 1) = Inr TableDrop"
      using "1.IH" [OF True here] "1.prems" by simp
    with True here show ?thesis
      by (subst checkTableFrom.simps) simp
  qed
qed

text \<open>
  C1: for every hook, packet and table, if every rule from \<^verbatim>\<open>BuiltinChains[hook]\<close> to the
  end of the rule list yields Continue, then \<^verbatim>\<open>checkTable\<close> returns the table verdict
  Drop.
\<close>

theorem checkTable_exhausted_drop:
  assumes "\<forall>i. hookIndex (BuiltinChains (tableNamed (Tables it) tablename)) hook \<le> i
      \<and> i < int (length (Rules (tableNamed (Tables it) tablename)))
      \<longrightarrow> checkRule it hook pkt (tableNamed (Tables it) tablename) i = Inr RuleContinue"
  shows "checkTable it hook pkt tablename = Inr TableDrop"
  using assms unfolding checkTable_def Let_def
  by (intro checkTableFrom_all_continue) simp

lemma checkTableFrom_skip_continue:
  "k \<le> j \<Longrightarrow> j \<le> int (length (Rules table)) \<Longrightarrow>
   (\<And>i. k \<le> i \<Longrightarrow> i < j \<Longrightarrow> checkRule it hook pkt table i = Inr RuleContinue) \<Longrightarrow>
   checkTableFrom it hook pkt table k = checkTableFrom it hook pkt table j"
proof (induction it hook pkt table k rule: checkTableFrom.induct)
  case (1 it hook pkt table ruleIdx)
  show ?case
  proof (cases "ruleIdx = j")
    case True
    then show ?thesis by simp
  next
    case False
    with "1.prems" have lt: "ruleIdx < j" and inside: "ruleIdx < int (length (Rules table))"
      by simp_all
    have here: "checkRule it hook pkt table ruleIdx = Inr RuleContinue"
      using "1.prems"(3) lt by simp
    have "checkTableFrom it hook pkt table (ruleIdx + 1) = checkTableFrom it hook pkt table j"
      using "1.IH" [OF inside here] "1.prems" lt by simp
    with inside here show ?thesis
      by (subst checkTableFrom.simps) simp
  qed
qed

text \<open>
  C4: if the traversal from \<^verbatim>\<open>BuiltinChains[hook]\<close> reaches a rule \<open>k\<close> that yields
  Return, \<^verbatim>\<open>checkTable\<close> is decided by the target of the rule at \<^verbatim>\<open>Underflows[hook]\<close>
  alone: Accept gives the table verdict Accept, Drop gives Drop, and any other result is
  a panic. The filter and the matchers of the underflow rule do not occur in the result.
\<close>

theorem checkTable_return_runs_underflow_target:
  assumes "table = tableNamed (Tables it) tablename"
    and "hookIndex (BuiltinChains table) hook \<le> k"
    and "k < int (length (Rules table))"
    and "\<forall>i. hookIndex (BuiltinChains table) hook \<le> i \<and> i < k
      \<longrightarrow> checkRule it hook pkt table i = Inr RuleContinue"
    and "checkRule it hook pkt table k = Inr RuleReturn"
    and "ruleAt (Rules table) (hookIndex (Underflows table) hook) = Inr underflow"
  shows "checkTable it hook pkt tablename =
     (case Action (Target underflow) pkt of
        None \<Rightarrow> Inl TargetPanic
      | Some (v, chain) \<Rightarrow>
          (case v of
             RuleAccept \<Rightarrow> Inr TableAccept
           | RuleDrop \<Rightarrow> Inr TableDrop
           | RuleContinue \<Rightarrow> Inl UnderflowVerdict
           | RuleReturn \<Rightarrow> Inl UnderflowVerdict
           | RuleVerdictOther n \<Rightarrow> Inl UnknownRuleVerdict))"
proof -
  have "checkTable it hook pkt tablename = checkTableFrom it hook pkt table k"
    unfolding checkTable_def Let_def assms(1) [symmetric]
    using assms(2-4) by (intro checkTableFrom_skip_continue) simp_all
  also have "\<dots> = checkUnderflow hook pkt table"
    using assms(3,5) by (subst checkTableFrom.simps) simp
  finally show ?thesis
    using assms(6) by (simp add: checkUnderflow_def)
qed

subsection \<open>The entry point\<close>

lemma CheckTables_first_drop:
  "\<forall>n\<in>set pre. checkTable it hook pkt n = Inr TableAccept \<Longrightarrow>
   checkTable it hook pkt tablename = Inr TableDrop \<Longrightarrow>
   CheckTables it hook pkt (pre @ tablename # post) = Inr False"
  by (induction pre) simp_all

lemma CheckTables_all_accept:
  "\<forall>n\<in>set names. checkTable it hook pkt n = Inr TableAccept \<Longrightarrow>
   CheckTables it hook pkt names = Inr True"
  by (induction names) simp_all

text \<open>
  C2: \<^verbatim>\<open>Check\<close> consults the tables named in \<^verbatim>\<open>Priorities[hook]\<close> in list order. If
  the tables before \<open>tablename\<close> accept and \<open>tablename\<close> drops, \<^verbatim>\<open>Check\<close> returns false,
  whatever the later names \<open>post\<close> are (their tables are not consulted). If every table
  of the list accepts, the empty list included, \<^verbatim>\<open>Check\<close> returns true.
\<close>

theorem Check_tables_in_order:
  "(prioritiesOf (Priorities it) hook = pre @ tablename # post
      \<and> (\<forall>n\<in>set pre. checkTable it hook pkt n = Inr TableAccept)
      \<and> checkTable it hook pkt tablename = Inr TableDrop
      \<longrightarrow> Check it hook pkt = Inr False)
   \<and> ((\<forall>n\<in>set (prioritiesOf (Priorities it) hook). checkTable it hook pkt n = Inr TableAccept)
      \<longrightarrow> Check it hook pkt = Inr True)"
  by (simp add: Check_def CheckTables_first_drop CheckTables_all_accept)

text \<open>
  C7: for the engine state built by \<^verbatim>\<open>DefaultTables\<close>, \<^verbatim>\<open>Check\<close> returns true for every
  hook and every packet.
\<close>

theorem Check_DefaultTables_accepts: "Check DefaultTables hook pkt = Inr True"
  by (cases hook)
    (simp_all add: Check_def prioritiesOf_def DefaultTables_def TablenameNat_def
      TablenameMangle_def TablenameFilter_def checkTable_def tableNamed_def natTable_def
      mangleTable_def filterTable_def hookIndex_def checkRule_def ruleAt_def
      ruleWithTarget_def AcceptTarget_def)

subsection \<open>No panic under the configuration invariant\<close>

lemma checkRuleMatchers_Inl:
  "checkRuleMatchers hook pkt ms target = Inl e \<Longrightarrow> e = MatcherPanic \<or> e = TargetPanic"
  by (induction ms) (auto split: option.splits if_splits)

lemma checkRuleMatchers_Inr:
  "checkRuleMatchers hook pkt ms target = Inr v \<Longrightarrow>
   v = RuleDrop \<or> v = RuleContinue \<or> (\<exists>chain. Action target pkt = Some (v, chain))"
  by (induction ms) (auto split: option.splits if_splits)

lemma checkRule_in_range_no_own_panic:
  assumes "0 \<le> i" and "i < int (length (Rules table))"
  shows "\<not> ownPanic (checkRule it hook pkt table i)"
proof (cases "checkRule it hook pkt table i")
  case (Inr v)
  then show ?thesis by (simp add: ownPanic_def)
next
  case (Inl e)
  then have "e = HeaderIndexOutOfRange \<or> e = MatcherPanic \<or> e = TargetPanic"
    using assms
    by (auto simp: checkRule_def ruleAt_def TransportProtocol_def
        split: if_splits dest: checkRuleMatchers_Inl)
  with Inl show ?thesis by (auto simp: ownPanic_def isOwnPanic_def)
qed

lemma checkRule_verdict_named:
  assumes "0 \<le> i" and "i < int (length (Rules table))"
    and "\<forall>rule\<in>set (Rules table). targetReturnsVerdict (Target rule)"
    and "checkRule it hook pkt table i = Inr v"
  shows "v = RuleAccept \<or> v = RuleDrop \<or> v = RuleContinue \<or> v = RuleReturn"
proof -
  let ?rule = "Rules table ! nat i"
  have mem: "?rule \<in> set (Rules table)"
    using assms(1,2) by simp
  have "checkRuleMatchers hook pkt (Matchers ?rule) (Target ?rule) = Inr v \<or> v = RuleContinue"
    using assms(1,2,4)
    by (auto simp: checkRule_def ruleAt_def split: if_splits sum.splits)
  then have "v = RuleDrop \<or> v = RuleContinue
      \<or> (\<exists>chain. Action (Target ?rule) pkt = Some (v, chain))"
    using checkRuleMatchers_Inr by blast
  moreover have "targetReturnsVerdict (Target ?rule)"
    using assms(3) mem by blast
  ultimately show ?thesis
    unfolding targetReturnsVerdict_def by (metis Pair_inject option.inject)
qed

lemma checkUnderflow_no_own_panic:
  assumes "ruleAt (Rules table) (hookIndex (Underflows table) hook) = Inr underflow"
    and "unconditionalAcceptOrDrop underflow"
  shows "checkUnderflow hook pkt table = Inr TableAccept
     \<or> checkUnderflow hook pkt table = Inr TableDrop"
proof -
  obtain v chain where "Action (Target underflow) pkt = Some (v, chain)"
    and "v = RuleAccept \<or> v = RuleDrop"
    using assms(2) unfolding unconditionalAcceptOrDrop_def by blast
  with assms(1) show ?thesis
    by (auto simp: checkUnderflow_def)
qed

lemma checkTableFrom_no_own_panic:
  assumes "0 \<le> k"
    and "ruleAt (Rules table) (hookIndex (Underflows table) hook) = Inr underflow"
    and "unconditionalAcceptOrDrop underflow"
    and "\<forall>rule\<in>set (Rules table). targetReturnsVerdict (Target rule)"
  shows "\<not> ownPanic (checkTableFrom it hook pkt table k)
     \<and> (\<forall>n. checkTableFrom it hook pkt table k \<noteq> Inr (TableVerdictOther n))"
  using assms
proof (induction it hook pkt table k rule: checkTableFrom.induct)
  case (1 it hook pkt table ruleIdx)
  show ?case
  proof (cases "ruleIdx < int (length (Rules table))")
    case False
    then show ?thesis
      by (subst (1 2) checkTableFrom.simps) (simp add: ownPanic_def)
  next
    case True
    note inside = True
    show ?thesis
    proof (cases "checkRule it hook pkt table ruleIdx")
      case (Inl e)
      have "\<not> ownPanic (checkRule it hook pkt table ruleIdx)"
        using "1.prems"(1) inside by (rule checkRule_in_range_no_own_panic)
      with Inl inside show ?thesis
        by (subst (1 2) checkTableFrom.simps) (simp add: ownPanic_def)
    next
      case (Inr v)
      have named: "v = RuleAccept \<or> v = RuleDrop \<or> v = RuleContinue \<or> v = RuleReturn"
        using "1.prems"(1) inside "1.prems"(4) Inr by (rule checkRule_verdict_named)
      have under: "checkUnderflow hook pkt table = Inr TableAccept
          \<or> checkUnderflow hook pkt table = Inr TableDrop"
        using "1.prems"(2,3) by (rule checkUnderflow_no_own_panic)
      show ?thesis
      proof (cases "v = RuleContinue")
        case True
        have "\<not> ownPanic (checkTableFrom it hook pkt table (ruleIdx + 1))
           \<and> (\<forall>n. checkTableFrom it hook pkt table (ruleIdx + 1) \<noteq> Inr (TableVerdictOther n))"
          using "1.IH" [OF inside Inr True] "1.prems" by simp
        with inside Inr True show ?thesis
          by (subst (1 2) checkTableFrom.simps) simp
      next
        case False
        with named under inside Inr show ?thesis
          by (subst (1 2) checkTableFrom.simps) (auto simp: ownPanic_def)
      qed
    qed
  qed
qed

lemma checkTable_no_own_panic:
  assumes "tableInvariant (tableNamed (Tables it) tablename) hook"
  shows "\<not> ownPanic (checkTable it hook pkt tablename)
     \<and> (\<forall>n. checkTable it hook pkt tablename \<noteq> Inr (TableVerdictOther n))"
proof -
  let ?table = "tableNamed (Tables it) tablename"
  from assms obtain underflow where
    "0 \<le> hookIndex (BuiltinChains ?table) hook"
    "ruleAt (Rules ?table) (hookIndex (Underflows ?table) hook) = Inr underflow"
    "unconditionalAcceptOrDrop underflow"
    "\<forall>rule\<in>set (Rules ?table). targetReturnsVerdict (Target rule)"
    unfolding tableInvariant_def by (auto split: sum.splits)
  then show ?thesis
    unfolding checkTable_def Let_def by (rule checkTableFrom_no_own_panic)
qed

lemma CheckTables_no_own_panic:
  "\<forall>tablename\<in>set names. tableInvariant (tableNamed (Tables it) tablename) hook \<Longrightarrow>
   \<not> ownPanic (CheckTables it hook pkt names)"
proof (induction names)
  case Nil
  then show ?case by (simp add: ownPanic_def)
next
  case (Cons a names)
  have a: "\<not> ownPanic (checkTable it hook pkt a)"
    "\<forall>n. checkTable it hook pkt a \<noteq> Inr (TableVerdictOther n)"
    using Cons.prems checkTable_no_own_panic [of it a hook pkt] by simp_all
  have rest: "\<not> ownPanic (CheckTables it hook pkt names)"
    using Cons by simp
  show ?case
  proof (cases "checkTable it hook pkt a")
    case (Inl e)
    with a(1) show ?thesis by (simp add: ownPanic_def)
  next
    case (Inr v)
    with a(2) rest show ?thesis
      by (cases v) (simp_all add: ownPanic_def)
  qed
qed

text \<open>
  C6: for every engine state that satisfies the configuration invariant, and every hook
  and packet, \<^verbatim>\<open>Check\<close>, \<^verbatim>\<open>checkTable\<close> on the tables of \<^verbatim>\<open>Priorities[hook]\<close> and
  \<^verbatim>\<open>checkRule\<close> on the rules from \<^verbatim>\<open>BuiltinChains[hook]\<close> on never index the rule list out
  of range and never reach one of their panic branches.
\<close>

theorem invariant_excludes_own_panics:
  assumes "configInvariant it"
  shows "\<not> ownPanic (Check it hook pkt)
     \<and> (\<forall>tablename\<in>set (prioritiesOf (Priorities it) hook).
          \<not> ownPanic (checkTable it hook pkt tablename)
          \<and> (\<forall>i. hookIndex (BuiltinChains (tableNamed (Tables it) tablename)) hook \<le> i
                \<and> i < int (length (Rules (tableNamed (Tables it) tablename)))
                \<longrightarrow> \<not> ownPanic (checkRule it hook pkt (tableNamed (Tables it) tablename) i)))"
proof -
  have inv: "\<forall>tablename\<in>set (prioritiesOf (Priorities it) hook).
      tableInvariant (tableNamed (Tables it) tablename) hook"
    using assms unfolding configInvariant_def by blast
  have top: "\<not> ownPanic (Check it hook pkt)"
    unfolding Check_def using inv by (rule CheckTables_no_own_panic)
  have each: "\<not> ownPanic (checkTable it hook pkt tablename)
      \<and> (\<forall>i. hookIndex (BuiltinChains (tableNamed (Tables it) tablename)) hook \<le> i
            \<and> i < int (length (Rules (tableNamed (Tables it) tablename)))
            \<longrightarrow> \<not> ownPanic (checkRule it hook pkt (tableNamed (Tables it) tablename) i))"
    if "tablename \<in> set (prioritiesOf (Priorities it) hook)" for tablename
  proof -
    have ti: "tableInvariant (tableNamed (Tables it) tablename) hook"
      using inv that by blast
    then have "0 \<le> hookIndex (BuiltinChains (tableNamed (Tables it) tablename)) hook"
      unfolding tableInvariant_def by simp
    then show ?thesis
      using checkTable_no_own_panic [OF ti, of pkt] checkRule_in_range_no_own_panic
      by (metis order_trans)
  qed
  from top each show ?thesis by blast
qed

section \<open>The theorems on the example configurations\<close>

text \<open>
  Each theorem above that has a hypothesis is applied to one of the example
  configurations, with its hypotheses evaluated there.
\<close>

lemmas example_defs =
  tcpPacket_def udpPacket_def bareHeaderPacket_def alwaysMatcher_def neverMatcher_def
  hotdropMatcher_def panicMatcher_def dropTarget_def returnTarget_def ruleOf_def tableOf_def
  AcceptTarget_def panicTarget_def

lemma int_between_0_2: "(0::int) \<le> i \<Longrightarrow> i < 2 \<Longrightarrow> i = 0 \<or> i = 1"
  by arith

text \<open>
  Both rules of the undecided table continue on a TCP packet, and the table drops it.
\<close>

theorem checkTable_exhausted_drop_witness:
  "checkRule orderedTables Input tcpPacket undecidedTable 0 = Inr RuleContinue
   \<and> checkRule orderedTables Input tcpPacket undecidedTable 1 = Inr RuleContinue
   \<and> checkTable orderedTables Input tcpPacket ''filter'' = Inr TableDrop"
proof -
  have t: "tableNamed (Tables orderedTables) ''filter'' = undecidedTable"
    by (simp add: tableNamed_def orderedTables_def)
  have start: "hookIndex (BuiltinChains undecidedTable) Input = 0"
    and len: "int (length (Rules undecidedTable)) = 2"
    by (simp_all add: undecidedTable_def tableOf_def hookIndex_def)
  have r0: "checkRule orderedTables Input tcpPacket undecidedTable 0 = Inr RuleContinue"
    by (simp add: checkRule_def ruleAt_def undecidedTable_def example_defs)
  have r1: "checkRule orderedTables Input tcpPacket undecidedTable 1 = Inr RuleContinue"
    by (simp add: checkRule_def ruleAt_def undecidedTable_def TransportProtocol_def example_defs)
  have "\<forall>i. hookIndex (BuiltinChains (tableNamed (Tables orderedTables) ''filter'')) Input \<le> i
      \<and> i < int (length (Rules (tableNamed (Tables orderedTables) ''filter'')))
      \<longrightarrow> checkRule orderedTables Input tcpPacket
            (tableNamed (Tables orderedTables) ''filter'') i = Inr RuleContinue"
    unfolding t start len using r0 r1 int_between_0_2 by blast
  from checkTable_exhausted_drop [OF this] r0 r1 show ?thesis by simp
qed

lemma orderedTables_checkTable:
  "checkTable orderedTables Input tcpPacket ''nat'' = Inr TableAccept"
  "checkTable orderedTables Output tcpPacket ''nat'' = Inr TableAccept"
  "checkTable orderedTables Input tcpPacket ''broken'' = Inl TargetPanic"
  by (simp_all add: checkTable_def tableNamed_def orderedTables_def natTable_def brokenTable_def
      hookIndex_def checkRule_def ruleAt_def ruleWithTarget_def example_defs)

lemma orderedTables_filter_drops:
  "checkTable orderedTables Input tcpPacket ''filter'' = Inr TableDrop"
  by (simp add: checkTable_def tableNamed_def orderedTables_def undecidedTable_def
      hookIndex_def checkRule_def ruleAt_def TransportProtocol_def example_defs)

text \<open>
  On Input the nat table accepts and the filter table drops: the result is false although the table after them would panic. On Output the only table accepts, and Forward has no table: the result is true.
\<close>

theorem Check_tables_in_order_witness:
  "prioritiesOf (Priorities orderedTables) Input = [''nat''] @ ''filter'' # [''broken'']
   \<and> checkTable orderedTables Input tcpPacket ''nat'' = Inr TableAccept
   \<and> checkTable orderedTables Input tcpPacket ''filter'' = Inr TableDrop
   \<and> checkTable orderedTables Input tcpPacket ''broken'' = Inl TargetPanic
   \<and> Check orderedTables Input tcpPacket = Inr False
   \<and> prioritiesOf (Priorities orderedTables) Output = [''nat'']
   \<and> checkTable orderedTables Output tcpPacket ''nat'' = Inr TableAccept
   \<and> Check orderedTables Output tcpPacket = Inr True
   \<and> prioritiesOf (Priorities orderedTables) Forward = []
   \<and> Check orderedTables Forward tcpPacket = Inr True"
proof -
  have pin: "prioritiesOf (Priorities orderedTables) Input = [''nat''] @ ''filter'' # [''broken'']"
    and pout: "prioritiesOf (Priorities orderedTables) Output = [''nat'']"
    and pfwd: "prioritiesOf (Priorities orderedTables) Forward = []"
    by (simp_all add: prioritiesOf_def orderedTables_def)
  have pre: "\<forall>n\<in>set [''nat'']. checkTable orderedTables Input tcpPacket n = Inr TableAccept"
    by (simp add: orderedTables_checkTable)
  have "Check orderedTables Input tcpPacket = Inr False"
    using Check_tables_in_order [of orderedTables Input "[''nat'']" "''filter''" "[''broken'']" tcpPacket]
      pin pre orderedTables_filter_drops by blast
  moreover have "Check orderedTables Output tcpPacket = Inr True"
    using Check_tables_in_order [of orderedTables Output _ _ _ tcpPacket] pout
    by (simp add: orderedTables_checkTable)
  moreover have "Check orderedTables Forward tcpPacket = Inr True"
    using Check_tables_in_order [of orderedTables Forward _ _ _ tcpPacket] pfwd by simp
  ultimately show ?thesis
    using pin pout pfwd orderedTables_checkTable orderedTables_filter_drops by simp
qed

text \<open>
  A hot-drop with no match gives Drop and a missing match gives Continue, each in front of a matcher and a target that panic; with every matcher matching the verdict of the target, Return, comes back as it is.
\<close>

theorem checkRule_matchers_in_order_witness:
  "Match hotdropMatcher Input tcpPacket '''' = Some (False, True)
   \<and> Match panicMatcher Input tcpPacket '''' = None
   \<and> Action panicTarget tcpPacket = None
   \<and> checkRule orderedTables Input tcpPacket matcherTable 0 = Inr RuleDrop
   \<and> checkRule orderedTables Input tcpPacket matcherTable 1 = Inr RuleContinue
   \<and> checkRule orderedTables Input tcpPacket matcherTable 2 = Inr RuleReturn"
proof -
  let ?r0 = "ruleOf 6 [alwaysMatcher, hotdropMatcher, panicMatcher] panicTarget"
  let ?r1 = "ruleOf 0 [alwaysMatcher, neverMatcher, panicMatcher] panicTarget"
  let ?r2 = "ruleOf 6 [alwaysMatcher, alwaysMatcher] returnTarget"
  have at: "ruleAt (Rules matcherTable) 0 = Inr ?r0" "ruleAt (Rules matcherTable) 1 = Inr ?r1"
    "ruleAt (Rules matcherTable) 2 = Inr ?r2"
    by (simp_all add: ruleAt_def matcherTable_def tableOf_def)
  have tcp: "TransportProtocol (NetworkHeader tcpPacket) = Inr 6"
    by (simp add: TransportProtocol_def tcpPacket_def)
  have f0: "Protocol (Filter ?r0) = 0
      \<or> TransportProtocol (NetworkHeader tcpPacket) = Inr (Protocol (Filter ?r0))"
    and f1: "Protocol (Filter ?r1) = 0
      \<or> TransportProtocol (NetworkHeader tcpPacket) = Inr (Protocol (Filter ?r1))"
    and f2: "Protocol (Filter ?r2) = 0
      \<or> TransportProtocol (NetworkHeader tcpPacket) = Inr (Protocol (Filter ?r2))"
    by (simp_all add: tcp ruleOf_def)
  have m: "Match alwaysMatcher Input tcpPacket '''' = Some (True, False)"
    "Match neverMatcher Input tcpPacket '''' = Some (False, False)"
    "Match hotdropMatcher Input tcpPacket '''' = Some (False, True)"
    "Match panicMatcher Input tcpPacket '''' = None"
    "Action panicTarget tcpPacket = None"
    "Action returnTarget tcpPacket = Some (RuleReturn, '''')"
    by (simp_all add: example_defs)
  have "checkRule orderedTables Input tcpPacket matcherTable 0 = Inr RuleDrop"
    using checkRule_matchers_in_order [OF at(1) f0,
        of "[alwaysMatcher]" hotdropMatcher "[panicMatcher]" Input False orderedTables] m
    by (simp add: ruleOf_def)
  moreover have "checkRule orderedTables Input tcpPacket matcherTable 1 = Inr RuleContinue"
    using checkRule_matchers_in_order [OF at(2) f1,
        of "[alwaysMatcher]" neverMatcher "[panicMatcher]" Input False orderedTables] m
    by (simp add: ruleOf_def)
  moreover have "checkRule orderedTables Input tcpPacket matcherTable 2 = Inr RuleReturn"
    using checkRule_matchers_in_order [OF at(3) f2, of _ _ _ Input _ orderedTables] m
    by (simp add: ruleOf_def)
  ultimately show ?thesis using m by simp
qed

text \<open>
  The second rule returns; the underflow rule would itself continue on the TCP packet (its filter is UDP-only) and its matcher panics, yet its target alone decides: Accept.
\<close>

theorem checkTable_return_runs_underflow_target_witness:
  "checkRule returningTables Input tcpPacket returningTable 0 = Inr RuleContinue
   \<and> checkRule returningTables Input tcpPacket returningTable 1 = Inr RuleReturn
   \<and> ruleAt (Rules returningTable) (hookIndex (Underflows returningTable) Input)
       = Inr (ruleOf 17 [panicMatcher] AcceptTarget)
   \<and> checkRule returningTables Input tcpPacket returningTable 2 = Inr RuleContinue
   \<and> checkTable returningTables Input tcpPacket ''filter'' = Inr TableAccept"
proof -
  have t: "returningTable = tableNamed (Tables returningTables) ''filter''"
    by (simp add: tableNamed_def returningTables_def)
  have start: "hookIndex (BuiltinChains returningTable) Input = 0"
    by (simp add: returningTable_def tableOf_def hookIndex_def)
  have r0: "checkRule returningTables Input tcpPacket returningTable 0 = Inr RuleContinue"
    and r1: "checkRule returningTables Input tcpPacket returningTable 1 = Inr RuleReturn"
    and r2: "checkRule returningTables Input tcpPacket returningTable 2 = Inr RuleContinue"
    by (simp_all add: checkRule_def ruleAt_def returningTable_def TransportProtocol_def
        example_defs)
  have u: "ruleAt (Rules returningTable) (hookIndex (Underflows returningTable) Input)
      = Inr (ruleOf 17 [panicMatcher] AcceptTarget)"
    by (simp add: ruleAt_def returningTable_def tableOf_def hookIndex_def)
  have a: "hookIndex (BuiltinChains returningTable) Input \<le> 1"
    and b: "1 < int (length (Rules returningTable))"
    by (simp_all add: start) (simp add: returningTable_def tableOf_def)
  have c: "\<forall>i. hookIndex (BuiltinChains returningTable) Input \<le> i \<and> i < 1
      \<longrightarrow> checkRule returningTables Input tcpPacket returningTable i = Inr RuleContinue"
  proof (intro allI impI)
    fix i :: int
    assume "hookIndex (BuiltinChains returningTable) Input \<le> i \<and> i < 1"
    then have "i = 0" unfolding start by arith
    then show "checkRule returningTables Input tcpPacket returningTable i = Inr RuleContinue"
      using r0 by simp
  qed
  have "checkTable returningTables Input tcpPacket ''filter'' = Inr TableAccept"
    using checkTable_return_runs_underflow_target [OF t a b c r1 u]
    by (simp add: ruleOf_def AcceptTarget_def)
  with r0 r1 r2 u show ?thesis by simp
qed

text \<open>
  A TCP packet skips the UDP-only rule, whose matcher and target panic; the rule after it
  is evaluated, accepts, and so decides the traversal from the skipped rule.
\<close>

theorem checkRule_protocol_mismatch_continue_witness:
  "ruleAt (Rules udpOnlyTable) 0 = Inr (ruleOf 17 [panicMatcher] panicTarget)
   \<and> TransportProtocol (NetworkHeader tcpPacket) = Inr 6
   \<and> checkRule returningTables Input tcpPacket udpOnlyTable 0 = Inr RuleContinue
   \<and> checkTableFrom returningTables Input tcpPacket udpOnlyTable 0
       = checkTableFrom returningTables Input tcpPacket udpOnlyTable (0 + 1)
   \<and> 0 + 1 < int (length (Rules udpOnlyTable))
   \<and> checkRule returningTables Input tcpPacket udpOnlyTable (0 + 1) = Inr RuleAccept
   \<and> checkTableFrom returningTables Input tcpPacket udpOnlyTable 0 = Inr TableAccept"
proof -
  have at: "ruleAt (Rules udpOnlyTable) 0 = Inr (ruleOf 17 [panicMatcher] panicTarget)"
    by (simp add: ruleAt_def udpOnlyTable_def tableOf_def)
  have p: "Protocol (Filter (ruleOf 17 [panicMatcher] panicTarget)) \<noteq> 0"
    by (simp add: ruleOf_def)
  have tcp: "TransportProtocol (NetworkHeader tcpPacket) = Inr 6"
    by (simp add: TransportProtocol_def tcpPacket_def)
  have ne: "6 \<noteq> Protocol (Filter (ruleOf 17 [panicMatcher] panicTarget))"
    by (simp add: ruleOf_def)
  have len: "0 + 1 < int (length (Rules udpOnlyTable))"
    by (simp add: udpOnlyTable_def tableOf_def)
  have next1: "checkRule returningTables Input tcpPacket udpOnlyTable (0 + 1) = Inr RuleAccept"
    by (simp add: checkRule_def ruleAt_def udpOnlyTable_def example_defs)
  from checkRule_protocol_mismatch_continue [OF at p tcp ne, of returningTables Input]
  have "checkRule returningTables Input tcpPacket udpOnlyTable 0 = Inr RuleContinue"
    and "checkTableFrom returningTables Input tcpPacket udpOnlyTable 0
       = checkTableFrom returningTables Input tcpPacket udpOnlyTable (0 + 1)"
    and "checkTableFrom returningTables Input tcpPacket udpOnlyTable 0 = Inr TableAccept"
    using len next1 by simp_all
  with at tcp len next1 show ?thesis
    by simp
qed

text \<open>
  With protocol 0 the matcher is consulted on a packet that has no network header to read.
\<close>

theorem checkRule_protocol_zero_unconstrained_witness:
  "ruleAt (Rules undecidedTable) 0 = Inr (ruleOf 0 [neverMatcher] AcceptTarget)
   \<and> TransportProtocol (NetworkHeader bareHeaderPacket) = Inl HeaderIndexOutOfRange
   \<and> checkRule orderedTables Input bareHeaderPacket undecidedTable 0
       = checkRuleMatchers Input bareHeaderPacket [neverMatcher] AcceptTarget
   \<and> checkRule orderedTables Input bareHeaderPacket undecidedTable 0 = Inr RuleContinue
   \<and> Match neverMatcher Input bareHeaderPacket '''' = Some (False, False)"
proof -
  have at: "ruleAt (Rules undecidedTable) 0 = Inr (ruleOf 0 [neverMatcher] AcceptTarget)"
    by (simp add: ruleAt_def undecidedTable_def tableOf_def)
  have p: "Protocol (Filter (ruleOf 0 [neverMatcher] AcceptTarget)) = 0"
    by (simp add: ruleOf_def)
  have h: "TransportProtocol (NetworkHeader bareHeaderPacket) = Inl HeaderIndexOutOfRange"
    by (simp add: TransportProtocol_def bareHeaderPacket_def)
  have m: "Match neverMatcher Input bareHeaderPacket '''' = Some (False, False)"
    by (simp add: neverMatcher_def)
  from checkRule_protocol_zero_unconstrained [OF at p, of orderedTables Input bareHeaderPacket]
  have "checkRule orderedTables Input bareHeaderPacket undecidedTable 0
      = checkRuleMatchers Input bareHeaderPacket [neverMatcher] AcceptTarget"
    by (simp add: ruleOf_def)
  with at h m show ?thesis by simp
qed

text \<open>
  The default tables on a TCP packet at Input and on a packet with no header at Forward.
\<close>

theorem Check_DefaultTables_accepts_witness:
  "Check DefaultTables Input tcpPacket = Inr True
   \<and> Check DefaultTables Forward bareHeaderPacket = Inr True"
  by (rule conjI) (rule Check_DefaultTables_accepts)+

lemma wiredTables_invariant: "configInvariant wiredTables"
  unfolding configInvariant_def
proof (intro allI ballI)
  fix hook tablename
  assume "tablename \<in> set (prioritiesOf (Priorities wiredTables) hook)"
  then have "hook = Input \<and> tablename = ''filter''"
    by (cases hook) (simp_all add: prioritiesOf_def wiredTables_def)
  then show "tableInvariant (tableNamed (Tables wiredTables) tablename) hook"
    by (simp add: tableInvariant_def tableNamed_def wiredTables_def wiredTable_def tableOf_def
        ruleOf_def hookIndex_def HookUnset_def ruleAt_def unconditionalAcceptOrDrop_def
        targetReturnsVerdict_def dropTarget_def returnTarget_def)
qed

text \<open>
  The well-configured state meets the invariant; the TCP packet returns from the first rule to the underflow rule and is dropped, with no panic.
\<close>

theorem invariant_excludes_own_panics_witness:
  "configInvariant wiredTables
   \<and> \<not> ownPanic (Check wiredTables Input tcpPacket)
   \<and> Check wiredTables Input tcpPacket = Inr False
   \<and> \<not> ownPanic (checkTable wiredTables Input tcpPacket ''filter'')
   \<and> \<not> ownPanic (checkRule wiredTables Input tcpPacket wiredTable 0)
   \<and> \<not> ownPanic (checkRule wiredTables Input tcpPacket wiredTable 1)"
proof -
  have t: "tableNamed (Tables wiredTables) ''filter'' = wiredTable"
    and p: "prioritiesOf (Priorities wiredTables) Input = [''filter'']"
    by (simp_all add: tableNamed_def prioritiesOf_def wiredTables_def)
  have s: "hookIndex (BuiltinChains wiredTable) Input = 0"
    "int (length (Rules wiredTable)) = 2"
    by (simp_all add: wiredTable_def tableOf_def hookIndex_def)
  have v: "Check wiredTables Input tcpPacket = Inr False"
    by (simp add: Check_def p checkTable_def t s checkTableFrom.simps checkRule_def ruleAt_def
        checkUnderflow_def TransportProtocol_def wiredTable_def hookIndex_def example_defs)
  from invariant_excludes_own_panics [OF wiredTables_invariant, of Input tcpPacket] v
  show ?thesis
    by (simp add: p t s wiredTables_invariant)
qed

end
